theory Spec2Isabelle
  imports Complex_Main "HOL-Library.Stream"
begin

section \<open>Air-quality level classifier (beijing_air_quality_art.py)\<close>

text \<open>
  \<open>BeijingAirQualityArt.get_aqi_level\<close> returns one of six string labels, the keys of
  the dictionary \<open>aqi_colors\<close> in the order in which the dictionary lists them. The labels
  are Chinese words; each becomes a constructor named by its meaning:
  \<^item> \<open>Excellent\<close> is the label U+4F18,
  \<^item> \<open>Good\<close> is the label U+826F,
  \<^item> \<open>LightPollution\<close> is the label U+8F7B U+5EA6 U+6C61 U+67D3,
  \<^item> \<open>ModeratePollution\<close> is the label U+4E2D U+5EA6 U+6C61 U+67D3,
  \<^item> \<open>HeavyPollution\<close> is the label U+91CD U+5EA6 U+6C61 U+67D3,
  \<^item> \<open>SeverePollution\<close> is the label U+4E25 U+91CD U+6C61 U+67D3.
  Concentrations are Python floats; they are modelled as real numbers.
\<close>

datatype aqi_level =
  Excellent | Good | LightPollution | ModeratePollution | HeavyPollution | SeverePollution

definition get_aqi_level :: "real \<Rightarrow> aqi_level" where
  "get_aqi_level pm25 =
     (if pm25 \<le> 35 then Excellent
      else if pm25 \<le> 75 then Good
      else if pm25 \<le> 115 then LightPollution
      else if pm25 \<le> 150 then ModeratePollution
      else if pm25 \<le> 250 then HeavyPollution
      else SeverePollution)"

text \<open>The position of a label in \<open>aqi_colors\<close>, which lists the levels from best to worst.\<close>

fun severity :: "aqi_level \<Rightarrow> nat" where
  "severity Excellent = 0"
| "severity Good = 1"
| "severity LightPollution = 2"
| "severity ModeratePollution = 3"
| "severity HeavyPollution = 4"
| "severity SeverePollution = 5"

text \<open>The colour bound to each level by \<open>aqi_colors\<close>.\<close>

fun aqi_colors :: "aqi_level \<Rightarrow> string" where
  "aqi_colors Excellent = ''#00E400''"
| "aqi_colors Good = ''#FFFF00''"
| "aqi_colors LightPollution = ''#FF7E00''"
| "aqi_colors ModeratePollution = ''#FF0000''"
| "aqi_colors HeavyPollution = ''#8F3F97''"
| "aqi_colors SeverePollution = ''#7E0023''"

section \<open>Records, the record store and the random source (kandinsky_air_art.py)\<close>

text \<open>
  One row of the data frame \<open>self.data\<close>. The column \<open>PM2.5\<close> is the field \<open>PM25\<close>.
  A timestamp is the number of an hour, or the missing value (NaN or NaT) that
  \<open>pd.read_csv\<close> delivers for a blank cell; the columns of measurements are real numbers.
\<close>

datatype timestamp = Hour int | NaT

record row =
  datetime :: timestamp
  station :: string
  PM25 :: real
  PM10 :: real
  SO2 :: real
  NO2 :: real
  CO :: real
  O3 :: real
  TEMP :: real
  PRES :: real
  DEWP :: real
  RAIN :: real
  WSPM :: real
  wd :: real

datatype error = ZeroDivisionError | IndexError

text \<open>
  The module-level generator of Python's \<open>random\<close> is a library object. Its state is the
  stream of the results that its two primitives will hand back, one element for each call:
  \<open>random()\<close> hands back a 53-bit fraction in \<open>[0, 1)\<close>, and \<open>_randbelow(n)\<close> hands back
  a number below \<open>n\<close>. The library finds that number by drawing raw bits again and again
  until the value is below \<open>n\<close>; that loop is inside the library, and the stream holds what
  comes out of it, not the raw bits. An element \<open>e\<close> is read by \<open>random()\<close> as the fraction
  with numerator \<open>e mod 2 ^ 53\<close> and by \<open>_randbelow(n)\<close> as the number \<open>e mod n\<close>, so that
  every stream is a run of the generator and every run is a stream.
  \<open>random.uniform(a, b)\<close> is \<open>a + (b - a) * random()\<close>, and \<open>random.randint(a, b)\<close> is
  \<open>a + _randbelow(b - a + 1)\<close>.
\<close>

type_synonym random_state = "nat stream"

definition random_py :: "random_state \<Rightarrow> real \<times> random_state" where
  "random_py g = (real (shd g mod 2 ^ 53) / 2 ^ 53, stl g)"

definition randbelow :: "nat \<Rightarrow> random_state \<Rightarrow> nat \<times> random_state" where
  "randbelow n g = (shd g mod n, stl g)"

definition uniform :: "real \<Rightarrow> real \<Rightarrow> random_state \<Rightarrow> real \<times> random_state" where
  "uniform a b g = (case random_py g of (u, g') \<Rightarrow> (a + (b - a) * u, g'))"

definition randint :: "int \<Rightarrow> int \<Rightarrow> random_state \<Rightarrow> int \<times> random_state" where
  "randint a b g = (case randbelow (nat (b - a + 1)) g of (k, g') \<Rightarrow> (a + int k, g'))"

text \<open>\<open>np.radians\<close>: degrees to radians.\<close>

definition radians :: "real \<Rightarrow> real" where
  "radians d = d * pi / 180"

subsection \<open>Palette classifier\<close>

datatype color_type = Primary | Secondary | Accent | Neutral

fun kandinsky_colors :: "color_type \<Rightarrow> string list" where
  "kandinsky_colors Primary =
     [''#FF6B6B'', ''#4ECDC4'', ''#45B7D1'', ''#96CEB4'', ''#FFEAA7'', ''#DDA0DD'']"
| "kandinsky_colors Secondary =
     [''#FF8E53'', ''#6C5CE7'', ''#A29BFE'', ''#FD79A8'', ''#FDCB6E'', ''#6C5CE7'']"
| "kandinsky_colors Accent =
     [''#E17055'', ''#00B894'', ''#0984E3'', ''#00CEC9'', ''#FDCB6E'', ''#E84393'']"
| "kandinsky_colors Neutral =
     [''#2D3436'', ''#636E72'', ''#74B9FF'', ''#81ECEC'', ''#FAB1A0'', ''#FF7675'']"

definition get_kandinsky_color :: "real \<Rightarrow> color_type \<Rightarrow> string" where
  "get_kandinsky_color v ct =
     (let colors = kandinsky_colors ct in
      if v < 50 then colors ! 0
      else if v < 100 then colors ! 1
      else if v < 150 then colors ! 2
      else if v < 200 then colors ! 3
      else if v < 250 then colors ! 4
      else colors ! 5)"

subsection \<open>Primitive descriptors\<close>

text \<open>
  The generation methods build Python dictionaries with fixed keys. Each kind of dictionary
  is a record; a field carries the key with the kind in front, since the kinds share keys.
\<close>

record circle =
  circle_x :: real
  circle_y :: real
  circle_radius :: real
  circle_color :: string
  circle_alpha :: real
  circle_rotation :: real

record triangle =
  triangle_x :: real
  triangle_y :: real
  triangle_size :: real
  triangle_color :: string
  triangle_alpha :: real
  triangle_rotation :: real

record rectangle =
  rectangle_x :: real
  rectangle_y :: real
  rectangle_width :: real
  rectangle_height :: real
  rectangle_color :: string
  rectangle_alpha :: real
  rectangle_rotation :: real

record line =
  line_start_x :: real
  line_start_y :: real
  line_end_x :: real
  line_end_y :: real
  line_color :: string
  line_width :: real
  line_alpha :: real

record polygon =
  polygon_vertices :: "(real \<times> real) list"
  polygon_color :: string
  polygon_alpha :: real
  polygon_rotation :: real

subsection \<open>The five generation rules\<close>

text \<open>
  Each method loops over the rows of the slice and appends to a list; the generator's state
  goes in and comes out. The draws are made in the order of the source.
\<close>

fun create_abstract_circles :: "row list \<Rightarrow> random_state \<Rightarrow> circle list \<times> random_state" where
  "create_abstract_circles [] g = ([], g)"
| "create_abstract_circles (row # rows) g =
     (let pm25 = PM25 row;
          size = max 0.5 (min 3.0 (pm25 / 50));
          color = get_kandinsky_color pm25 Primary;
          (x, g) = uniform (- 8) 8 g;
          (y, g) = uniform (- 8) 8 g;
          wind_direction = wd row;
          wind_x = cos (radians wind_direction) * 0.5;
          wind_y = sin (radians wind_direction) * 0.5;
          (alpha, g) = uniform 0.4 0.8 g;
          (rotation, g) = uniform 0 360 g;
          circle = \<lparr>circle_x = x + wind_x, circle_y = y + wind_y, circle_radius = size,
                    circle_color = color, circle_alpha = alpha, circle_rotation = rotation\<rparr>;
          (circles, g) = create_abstract_circles rows g
      in (circle # circles, g))"

fun create_abstract_triangles :: "row list \<Rightarrow> random_state \<Rightarrow> triangle list \<times> random_state" where
  "create_abstract_triangles [] g = ([], g)"
| "create_abstract_triangles (row # rows) g =
     (let so2 = SO2 row;
          size = max 0.3 (min 2.0 (so2 / 30));
          color = get_kandinsky_color so2 Secondary;
          (x, g) = uniform (- 7) 7 g;
          (y, g) = uniform (- 7) 7 g;
          temp = TEMP row;
          temp_factor = (temp + 20) / 40;
          (alpha, g) = uniform 0.3 0.7 g;
          (rotation, g) = uniform 0 360 g;
          triangle = \<lparr>triangle_x = x, triangle_y = y, triangle_size = size * temp_factor,
                      triangle_color = color, triangle_alpha = alpha,
                      triangle_rotation = rotation\<rparr>;
          (triangles, g) = create_abstract_triangles rows g
      in (triangle # triangles, g))"

fun create_abstract_rectangles :: "row list \<Rightarrow> random_state \<Rightarrow> rectangle list \<times> random_state" where
  "create_abstract_rectangles [] g = ([], g)"
| "create_abstract_rectangles (row # rows) g =
     (let no2 = NO2 row;
          width = max 0.2 (min 1.5 (no2 / 40));
          height = max 0.2 (min 1.5 (no2 / 40));
          color = get_kandinsky_color no2 Accent;
          (x, g) = uniform (- 6) 6 g;
          (y, g) = uniform (- 6) 6 g;
          humidity = DEWP row;
          alpha = max 0.2 (min 0.8 (humidity / 100));
          (rotation, g) = uniform 0 360 g;
          rectangle = \<lparr>rectangle_x = x, rectangle_y = y, rectangle_width = width,
                       rectangle_height = height, rectangle_color = color,
                       rectangle_alpha = alpha, rectangle_rotation = rotation\<rparr>;
          (rectangles, g) = create_abstract_rectangles rows g
      in (rectangle # rectangles, g))"

fun create_abstract_lines :: "row list \<Rightarrow> random_state \<Rightarrow> line list \<times> random_state" where
  "create_abstract_lines [] g = ([], g)"
| "create_abstract_lines (row # rows) g =
     (let wind_speed = WSPM row;
          wind_direction = wd row
      in if wind_speed > 2 then
           (let length = max 1.0 (min 4.0 (wind_speed / 2));
                (start_x, g) = uniform (- 8) 8 g;
                (start_y, g) = uniform (- 8) 8 g;
                end_x = start_x + cos (radians wind_direction) * length;
                end_y = start_y + sin (radians wind_direction) * length;
                co = CO row;
                color = get_kandinsky_color co Neutral;
                (alpha, g) = uniform 0.4 0.8 g;
                line = \<lparr>line_start_x = start_x, line_start_y = start_y, line_end_x = end_x,
                          line_end_y = end_y, line_color = color,
                          line_width = max 1 (min 5 wind_speed), line_alpha = alpha\<rparr>;
                (lines, g) = create_abstract_lines rows g
            in (line # lines, g))
         else create_abstract_lines rows g)"

fun create_abstract_polygons :: "row list \<Rightarrow> random_state \<Rightarrow> polygon list \<times> random_state" where
  "create_abstract_polygons [] g = ([], g)"
| "create_abstract_polygons (row # rows) g =
     (let o3 = O3 row
      in if o3 > 50 then
           (let (sides, g) = randint 5 8 g;
                size = max 0.5 (min 2.0 (o3 / 100));
                color = get_kandinsky_color o3 Primary;
                (center_x, g) = uniform (- 7) 7 g;
                (center_y, g) = uniform (- 7) 7 g;
                vertices = map (\<lambda>i. let angle = 2 * pi * real i / real_of_int sides
                                     in (center_x + size * cos angle,
                                         center_y + size * sin angle))
                               [0 ..< nat sides];
                (alpha, g) = uniform 0.3 0.6 g;
                (rotation, g) = uniform 0 360 g;
                polygon = \<lparr>polygon_vertices = vertices, polygon_color = color,
                             polygon_alpha = alpha, polygon_rotation = rotation\<rparr>;
                (polygons, g) = create_abstract_polygons rows g
            in (polygon # polygons, g))
         else create_abstract_polygons rows g)"

subsection \<open>The drawing surface\<close>

text \<open>
  The matplotlib axes \<open>self.ax\<close>, reduced to what the methods set: the limits, the aspect,
  whether the axis decoration is shown, the background colour, and the artists added so far
  (patches by \<open>add_patch\<close>, lines by \<open>plot\<close>). \<open>ax.clear()\<close> removes every artist,
  puts the limits back to \<open>(0, 1)\<close> and shows the axis decoration again; it keeps the
  background colour and the aspect.
\<close>

datatype patch =
  CirclePatch "real \<times> real" real string real
| PolygonPatch "(real \<times> real) list" string real

record line2d =
  line2d_xdata :: "real list"
  line2d_ydata :: "real list"
  line2d_color :: string
  line2d_linewidth :: real
  line2d_alpha :: real

record axes =
  xlim :: "real \<times> real"
  ylim :: "real \<times> real"
  aspect :: string
  axis_on :: bool
  facecolor :: string
  patches :: "patch list"
  plot_lines :: "line2d list"

definition ax_clear :: "axes \<Rightarrow> axes" where
  "ax_clear ax = ax\<lparr>xlim := (0, 1), ylim := (0, 1), axis_on := True,
                     patches := [], plot_lines := []\<rparr>"

definition add_patch :: "patch \<Rightarrow> axes \<Rightarrow> axes" where
  "add_patch p ax = ax\<lparr>patches := patches ax @ [p]\<rparr>"

definition setup_plot :: "axes \<Rightarrow> axes" where
  "setup_plot ax = ax\<lparr>xlim := (- 10, 10), ylim := (- 10, 10), aspect := ''equal'',
                       axis_on := False, facecolor := ''#e5dbc3''\<rparr>"

subsection \<open>Rotation and drawing\<close>

text \<open>
  The three drawing loops for triangles, rectangles and polygons rotate every vertex
  \<open>(vx, vy)\<close> about a centre with the same two assignments to \<open>rx\<close> and \<open>ry\<close>;
  \<open>rotate_vertex\<close> is that loop body, with the angle in radians.
\<close>

definition rotate_vertex :: "real \<Rightarrow> real \<Rightarrow> real \<Rightarrow> real \<times> real \<Rightarrow> real \<times> real" where
  "rotate_vertex cx cy angle v =
     (case v of (vx, vy) \<Rightarrow>
        ((vx - cx) * cos angle - (vy - cy) * sin angle + cx,
         (vx - cx) * sin angle + (vy - cy) * cos angle + cy))"

fun draw_abstract_circles :: "circle list \<Rightarrow> axes \<Rightarrow> axes" where
  "draw_abstract_circles [] ax = ax"
| "draw_abstract_circles (circle # circles) ax =
     (let main_circle = CirclePatch (circle_x circle, circle_y circle) (circle_radius circle)
                          (circle_color circle) (circle_alpha circle);
          ax = add_patch main_circle ax;
          inner_circle = CirclePatch (circle_x circle, circle_y circle)
                           (circle_radius circle * 0.6) ''white'' 0.3;
          ax = add_patch inner_circle ax;
          outer_circle = CirclePatch (circle_x circle, circle_y circle)
                           (circle_radius circle * 1.3) (circle_color circle) 0.2;
          ax = add_patch outer_circle ax
      in draw_abstract_circles circles ax)"

text \<open>The vertices a triangle is drawn with: built around its centre, then rotated.\<close>

definition triangle_rotated_vertices :: "triangle \<Rightarrow> (real \<times> real) list" where
  "triangle_rotated_vertices tri =
     (let x = triangle_x tri; y = triangle_y tri;
          size = triangle_size tri;
          vertices = [(x, y + size),
                      (x - size * 0.866, y - size * 0.5),
                      (x + size * 0.866, y - size * 0.5)];
          angle = radians (triangle_rotation tri)
      in map (rotate_vertex x y angle) vertices)"

fun draw_abstract_triangles :: "triangle list \<Rightarrow> axes \<Rightarrow> axes" where
  "draw_abstract_triangles [] ax = ax"
| "draw_abstract_triangles (tri # triangles) ax =
     (let polygon = PolygonPatch (triangle_rotated_vertices tri)
                      (triangle_color tri) (triangle_alpha tri)
      in draw_abstract_triangles triangles (add_patch polygon ax))"

definition rectangle_rotated_vertices :: "rectangle \<Rightarrow> (real \<times> real) list" where
  "rectangle_rotated_vertices rectangle =
     (let x = rectangle_x rectangle; y = rectangle_y rectangle;
          w = rectangle_width rectangle; h = rectangle_height rectangle;
          vertices = [(x - w / 2, y - h / 2),
                      (x + w / 2, y - h / 2),
                      (x + w / 2, y + h / 2),
                      (x - w / 2, y + h / 2)];
          angle = radians (rectangle_rotation rectangle)
      in map (rotate_vertex x y angle) vertices)"

fun draw_abstract_rectangles :: "rectangle list \<Rightarrow> axes \<Rightarrow> axes" where
  "draw_abstract_rectangles [] ax = ax"
| "draw_abstract_rectangles (rectangle # rectangles) ax =
     (let polygon = PolygonPatch (rectangle_rotated_vertices rectangle)
                      (rectangle_color rectangle) (rectangle_alpha rectangle)
      in draw_abstract_rectangles rectangles (add_patch polygon ax))"

fun draw_abstract_lines :: "line list \<Rightarrow> axes \<Rightarrow> axes" where
  "draw_abstract_lines [] ax = ax"
| "draw_abstract_lines (line # lines) ax =
     draw_abstract_lines lines
       (ax\<lparr>plot_lines := plot_lines ax @
             [\<lparr>line2d_xdata = [line_start_x line, line_end_x line],
               line2d_ydata = [line_start_y line, line_end_y line],
               line2d_color = line_color line, line2d_linewidth = line_width line,
               line2d_alpha = line_alpha line\<rparr>]\<rparr>)"

text \<open>
  A polygon is rotated about the mean of its vertices. The two divisions by
  \<open>len(polygon['vertices'])\<close> raise on a polygon without vertices.
\<close>

definition polygon_rotated_vertices :: "real \<Rightarrow> (real \<times> real) list \<Rightarrow> error + (real \<times> real) list" where
  "polygon_rotated_vertices rotation vertices =
     (let angle = radians rotation
      in if length vertices = 0 then Inl ZeroDivisionError
         else (let center_x = sum_list (map fst vertices) / real (length vertices);
                   center_y = sum_list (map snd vertices) / real (length vertices)
               in Inr (map (rotate_vertex center_x center_y angle) vertices)))"

fun draw_abstract_polygons :: "polygon list \<Rightarrow> axes \<Rightarrow> error + axes" where
  "draw_abstract_polygons [] ax = Inr ax"
| "draw_abstract_polygons (polygon # polygons) ax =
     (case polygon_rotated_vertices (polygon_rotation polygon) (polygon_vertices polygon) of
        Inl e \<Rightarrow> Inl e
      | Inr rotated_vertices \<Rightarrow>
          draw_abstract_polygons polygons
            (add_patch (PolygonPatch rotated_vertices (polygon_color polygon)
                          (polygon_alpha polygon)) ax))"

subsection \<open>Background colour\<close>

text \<open>
  \<open>data['PM2.5'].mean()\<close> of a slice without rows is NaN, with which every comparison is
  false; \<open>None\<close> stands for it.
\<close>

definition mean :: "real list \<Rightarrow> real option" where
  "mean xs = (if xs = [] then None else Some (sum_list xs / real (length xs)))"

definition float_less :: "real option \<Rightarrow> real \<Rightarrow> bool" where
  "float_less v c = (case v of None \<Rightarrow> False | Some x \<Rightarrow> x < c)"

definition add_background_gradient :: "row list \<Rightarrow> axes \<Rightarrow> axes" where
  "add_background_gradient data ax =
     (let avg_pm25 = mean (map PM25 data);
          bg_color = (if float_less avg_pm25 50 then ''#e5dbc3''
                      else if float_less avg_pm25 100 then ''#d4c5a0''
                      else if float_less avg_pm25 150 then ''#c3b07d''
                      else ''#b29b5a'')
      in ax\<lparr>facecolor := bg_color\<rparr>)"

subsection \<open>Selecting the slice of a frame\<close>

text \<open>
  \<open>Series.unique()\<close> keeps the first occurrence of every value, in order of appearance;
  all missing values count as one value there. The comparison \<open>==\<close> of a column with a
  value is false wherever either side is missing.
\<close>

fun unique :: "'a list \<Rightarrow> 'a list" where
  "unique [] = []"
| "unique (x # xs) = x # unique (filter (\<lambda>y. y \<noteq> x) xs)"

text \<open>
  \<open>KandinskyAirArt.create_abstract_visualization\<close> and
  \<open>BeijingAirQualityArt.create_pollutant_visualization\<close> choose the reference timestamp and
  the slice with the same two statements:
  \<^verbatim>\<open>current_time = self.data['datetime'].iloc[frame % len(self.data['datetime'].unique())]\<close>
  and \<^verbatim>\<open>current_data = self.data[self.data['datetime'] == current_time]\<close>.
  The remainder by zero and the position past the end of the column raise.
\<close>

definition series_eq :: "timestamp \<Rightarrow> timestamp \<Rightarrow> bool" where
  "series_eq a b = (a \<noteq> NaT \<and> b \<noteq> NaT \<and> a = b)"

definition current_time :: "row list \<Rightarrow> nat \<Rightarrow> error + timestamp" where
  "current_time data frame =
     (let n = length (unique (map datetime data))
      in if n = 0 then Inl ZeroDivisionError
         else (let i = frame mod n
               in if i < length data then Inr (map datetime data ! i) else Inl IndexError))"

definition current_data :: "row list \<Rightarrow> nat \<Rightarrow> error + row list" where
  "current_data data frame =
     (case current_time data frame of
        Inl e \<Rightarrow> Inl e
      | Inr t \<Rightarrow> Inr (filter (\<lambda>r. series_eq (datetime r) t) data))"

subsection \<open>The frame composer\<close>

text \<open>
  \<open>compose_slice\<close> is the part of \<open>create_abstract_visualization\<close> that follows the choice
  of the slice: the test \<open>current_data.empty\<close> with its early return, the five generation
  rules, the five drawing loops and the background. The method itself clears the axes, sets
  them up, chooses the slice and goes on with that part.
\<close>

definition compose_slice ::
  "row list \<Rightarrow> axes \<times> random_state \<Rightarrow> error + axes \<times> random_state" where
  "compose_slice slice st =
     (case st of (ax, g) \<Rightarrow>
        if slice = [] then Inr (ax, g)
        else (let (circles, g) = create_abstract_circles slice g;
                  (triangles, g) = create_abstract_triangles slice g;
                  (rectangles, g) = create_abstract_rectangles slice g;
                  (lines, g) = create_abstract_lines slice g;
                  (polygons, g) = create_abstract_polygons slice g;
                  ax = draw_abstract_circles circles ax;
                  ax = draw_abstract_triangles triangles ax;
                  ax = draw_abstract_rectangles rectangles ax;
                  ax = draw_abstract_lines lines ax
              in case draw_abstract_polygons polygons ax of
                   Inl e \<Rightarrow> Inl e
                 | Inr ax \<Rightarrow> Inr (add_background_gradient slice ax, g)))"

definition create_abstract_visualization ::
  "row list \<Rightarrow> nat \<Rightarrow> axes \<times> random_state \<Rightarrow> error + axes \<times> random_state" where
  "create_abstract_visualization data frame st =
     (case st of (ax, g) \<Rightarrow>
        (let ax = setup_plot (ax_clear ax)
         in case current_data data frame of
              Inl e \<Rightarrow> Inl e
            | Inr slice \<Rightarrow> compose_slice slice (ax, g)))"

subsection \<open>The animation\<close>

text \<open>
  \<open>start_animation\<close> returns at once when the data frame is empty; otherwise it hands the
  composer to \<open>FuncAnimation\<close> with \<open>frames\<close> set to the number of distinct timestamps.
  The result is that number, or \<open>None\<close> for the early return. \<open>FuncAnimation\<close>, a
  library class, then calls the composer once for every tick of its timer: with the frame
  numbers \<open>0, 1, ..., frames - 1\<close> on the first \<open>frames\<close> ticks; on the next tick the
  frames have run out, and since the animation repeats and has no \<open>init_func\<close> it draws
  frame 0 again and renews the sequence, which starts on the tick after. The frame numbers
  of the ticks are thus \<open>0, ..., frames - 1, 0, 0, ..., frames - 1, 0, ...\<close>;
  \<open>frame_of_tick\<close> is the frame number of the tick \<open>t\<close>, counted from zero.
\<close>

definition start_animation :: "row list \<Rightarrow> nat option" where
  "start_animation data =
     (if data = [] then None else Some (length (unique (map datetime data))))"

definition frame_of_tick :: "nat \<Rightarrow> nat \<Rightarrow> nat" where
  "frame_of_tick frames t =
     (let k = t mod (frames + 1) in if k = frames then 0 else k)"

definition tick_time :: "row list \<Rightarrow> nat \<Rightarrow> (error + timestamp) option" where
  "tick_time data t =
     (case start_animation data of
        None \<Rightarrow> None
      | Some frames \<Rightarrow> Some (current_time data (frame_of_tick frames t)))"

subsection \<open>Euclidean distance and concrete inputs\<close>

definition distance :: "real \<times> real \<Rightarrow> real \<times> real \<Rightarrow> real" where
  "distance p q = sqrt ((fst p - fst q)\<^sup>2 + (snd p - snd q)\<^sup>2)"

text \<open>A row with the base values of the synthetic generator; a store of two stations
  reporting at two hours, in the order in which the generator writes them; a store of one
  station reporting at three hours; and a store whose only row has a blank timestamp.\<close>

definition sample_row :: row where
  "sample_row = \<lparr>datetime = Hour 0, station = ''Aotizhongxin'', PM25 = 50, PM10 = 75, SO2 = 20,
                  NO2 = 40, CO = 2, O3 = 80, TEMP = 15, PRES = 1013, DEWP = 10, RAIN = 0,
                  WSPM = 3, wd = 0\<rparr>"

definition sample_store :: "row list" where
  "sample_store =
     [sample_row, sample_row\<lparr>station := ''Changping''\<rparr>,
      sample_row\<lparr>datetime := Hour 1\<rparr>,
      sample_row\<lparr>datetime := Hour 1, station := ''Changping''\<rparr>]"

definition hourly_store :: "row list" where
  "hourly_store =
     [sample_row, sample_row\<lparr>datetime := Hour 1\<rparr>, sample_row\<lparr>datetime := Hour 2\<rparr>]"

definition blank_time_store :: "row list" where
  "blank_time_store = [sample_row\<lparr>datetime := NaT\<rparr>]"

section \<open>Properties of the classifier\<close>

lemma severity_get_aqi_level:
  "severity (get_aqi_level v) =
     (if v \<le> 35 then 0 else if v \<le> 75 then 1 else if v \<le> 115 then 2
      else if v \<le> 150 then 3 else if v \<le> 250 then 4 else 5)"
  by (simp add: get_aqi_level_def)

text \<open>
  Claim C2. For every concentration \<open>v\<close> the classifier returns exactly one of the six
  levels (it is a total function into the six-constructor type, with no failing branch),
  and which one is fixed by the breakpoints 35, 75, 115, 150 and 250: the first level for
  the values up to 35, the second above 35 and up to 75, the third above 75 and up to 115,
  the fourth above 115 and up to 150, the fifth above 150 and up to 250, the last above 250.
  The severity of the level is monotone non-decreasing in \<open>v\<close>, every value at or below 35
  (also a negative one) gets the first level and every value above 250 the last, and the six
  example values 10, 50, 100, 140, 200 and 300 get the six levels in order.
\<close>

theorem get_aqi_level_total_monotone:
  "(get_aqi_level v \<in> {Excellent, Good, LightPollution, ModeratePollution,
                        HeavyPollution, SeverePollution})
   \<and> (get_aqi_level v = Excellent) = (v \<le> 35)
   \<and> (get_aqi_level v = Good) = (35 < v \<and> v \<le> 75)
   \<and> (get_aqi_level v = LightPollution) = (75 < v \<and> v \<le> 115)
   \<and> (get_aqi_level v = ModeratePollution) = (115 < v \<and> v \<le> 150)
   \<and> (get_aqi_level v = HeavyPollution) = (150 < v \<and> v \<le> 250)
   \<and> (get_aqi_level v = SeverePollution) = (250 < v)
   \<and> (\<forall>u w. u \<le> w \<longrightarrow> severity (get_aqi_level u) \<le> severity (get_aqi_level w))
   \<and> (\<forall>u. u \<le> 35 \<longrightarrow> get_aqi_level u = Excellent)
   \<and> (\<forall>u. 250 < u \<longrightarrow> get_aqi_level u = SeverePollution)
   \<and> get_aqi_level 10 = Excellent
   \<and> get_aqi_level 50 = Good
   \<and> get_aqi_level 100 = LightPollution
   \<and> get_aqi_level 140 = ModeratePollution
   \<and> get_aqi_level 200 = HeavyPollution
   \<and> get_aqi_level 300 = SeverePollution"
proof -
  have one: "get_aqi_level v \<in> {Excellent, Good, LightPollution, ModeratePollution,
                                 HeavyPollution, SeverePollution}"
    by (cases "get_aqi_level v") simp_all
  have b1: "(get_aqi_level v = Excellent) = (v \<le> 35)"
    by (simp add: get_aqi_level_def)
  have b2: "(get_aqi_level v = Good) = (35 < v \<and> v \<le> 75)"
    by (simp add: get_aqi_level_def)
  have b3: "(get_aqi_level v = LightPollution) = (75 < v \<and> v \<le> 115)"
    by (simp add: get_aqi_level_def)
  have b4: "(get_aqi_level v = ModeratePollution) = (115 < v \<and> v \<le> 150)"
    by (simp add: get_aqi_level_def)
  have b5: "(get_aqi_level v = HeavyPollution) = (150 < v \<and> v \<le> 250)"
    by (simp add: get_aqi_level_def)
  have b6: "(get_aqi_level v = SeverePollution) = (250 < v)"
    by (simp add: get_aqi_level_def)
  have mono: "\<forall>u w. u \<le> w \<longrightarrow> severity (get_aqi_level u) \<le> severity (get_aqi_level w)"
    by (simp add: severity_get_aqi_level)
  have lo: "\<forall>u. u \<le> 35 \<longrightarrow> get_aqi_level u = Excellent"
    by (simp add: get_aqi_level_def)
  have hi: "\<forall>u. 250 < u \<longrightarrow> get_aqi_level u = SeverePollution"
    by (simp add: get_aqi_level_def)
  have ex: "get_aqi_level 10 = Excellent" "get_aqi_level 50 = Good"
    "get_aqi_level 100 = LightPollution" "get_aqi_level 140 = ModeratePollution"
    "get_aqi_level 200 = HeavyPollution" "get_aqi_level 300 = SeverePollution"
    by (simp_all add: get_aqi_level_def)
  from one b1 b2 b3 b4 b5 b6 mono lo hi ex show ?thesis by blast
qed

theorem get_aqi_level_total_monotone_witness:
  "(35::real) \<le> 36 \<and> severity (get_aqi_level 35) \<le> severity (get_aqi_level 36)
   \<and> get_aqi_level (-5) = Excellent \<and> get_aqi_level 1000 = SeverePollution
   \<and> get_aqi_level 40 = Good \<and> get_aqi_level 80 = LightPollution
   \<and> get_aqi_level 120 = ModeratePollution \<and> get_aqi_level 160 = HeavyPollution"
proof -
  have m: "\<forall>u w. u \<le> w \<longrightarrow> severity (get_aqi_level u) \<le> severity (get_aqi_level w)"
    and l: "\<forall>u. u \<le> 35 \<longrightarrow> get_aqi_level u = Excellent"
    and h: "\<forall>u. 250 < u \<longrightarrow> get_aqi_level u = SeverePollution"
    using get_aqi_level_total_monotone [of 0] by blast+
  have "(35::real) \<le> 36" by simp
  moreover from m this have "severity (get_aqi_level 35) \<le> severity (get_aqi_level 36)"
    by blast
  moreover from l have "get_aqi_level (-5) = Excellent" by simp
  moreover from h have "get_aqi_level 1000 = SeverePollution" by simp
  moreover have "get_aqi_level 40 = Good"
    using get_aqi_level_total_monotone [of 40] by simp
  moreover have "get_aqi_level 80 = LightPollution"
    using get_aqi_level_total_monotone [of 80] by simp
  moreover have "get_aqi_level 120 = ModeratePollution"
    using get_aqi_level_total_monotone [of 120] by simp
  moreover have "get_aqi_level 160 = HeavyPollution"
    using get_aqi_level_total_monotone [of 160] by simp
  ultimately show ?thesis by blast
qed

text \<open>
  Claim C10. A value equal to a breakpoint belongs to the lower of the two levels that meet
  there: 35 is \<open>Excellent\<close>, 75 is \<open>Good\<close>, 115 is \<open>LightPollution\<close>, 150 is
  \<open>ModeratePollution\<close>, 250 is \<open>HeavyPollution\<close>; and the worst level is returned exactly
  for the values strictly above 250.
\<close>

theorem get_aqi_level_breakpoints:
  "get_aqi_level 35 = Excellent
   \<and> get_aqi_level 75 = Good
   \<and> get_aqi_level 115 = LightPollution
   \<and> get_aqi_level 150 = ModeratePollution
   \<and> get_aqi_level 250 = HeavyPollution
   \<and> (get_aqi_level v = SeverePollution) = (250 < v)"
  by (simp add: get_aqi_level_def)

section \<open>Properties of the frame selection and the animation\<close>

lemma length_unique_le: "length (unique xs) \<le> length xs"
proof (induction xs rule: unique.induct)
  case 1
  show ?case by simp
next
  case (2 x xs)
  have "length (unique (filter (\<lambda>y. y \<noteq> x) xs)) \<le> length (filter (\<lambda>y. y \<noteq> x) xs)"
    by (rule "2.IH")
  also have "\<dots> \<le> length xs" by (rule length_filter_le)
  finally show ?case by simp
qed

lemma unique_empty_iff: "unique xs = [] \<longleftrightarrow> xs = []"
  by (cases xs) simp_all

lemma unique_nth0: "xs \<noteq> [] \<Longrightarrow> unique xs ! 0 = xs ! 0"
  by (cases xs) simp_all

lemma set_unique: "set (unique xs) = set xs"
  by (induction xs rule: unique.induct) auto

lemma distinct_unique: "distinct (unique xs)"
  by (induction xs rule: unique.induct) (auto simp: set_unique)

lemma current_time_nonempty:
  assumes "data \<noteq> []"
  shows "current_time data f = Inr (datetime (data ! (f mod length (unique (map datetime data)))))"
    and "f mod length (unique (map datetime data)) < length data"
    and "0 < length (unique (map datetime data))"
proof -
  let ?n = "length (unique (map datetime data))"
  from assms show pos: "0 < ?n" by (simp add: unique_empty_iff)
  have "?n \<le> length data" using length_unique_le [of "map datetime data"] by simp
  with pos show lt: "f mod ?n < length data"
    by (meson mod_less_divisor less_le_trans)
  from pos lt show "current_time data f = Inr (datetime (data ! (f mod ?n)))"
    by (simp add: current_time_def Let_def)
qed

text \<open>
  Claim C7. For a store with at least one row and \<open>N\<close> distinct timestamps, the animation is
  started with \<open>N\<close> frames and \<open>N\<close> is positive. The timestamp chosen for a frame number
  \<open>f\<close> is the one at position \<open>f mod N\<close> of the column, hence the one chosen for the frame
  number \<open>f mod N\<close>; frame 0 gets the first timestamp of the series, and so does frame \<open>N\<close>.
  After exactly \<open>N\<close> ticks the timestamp handed to the composer is the first one again. The
  ticks themselves repeat after \<open>N + 1\<close> of them, since the tick on which the frames run
  out draws frame 0 once more.
\<close>

theorem scheduler_period:
  fixes data :: "row list" and f t :: nat
  defines "N \<equiv> length (unique (map datetime data))"
  assumes "data \<noteq> []"
  shows "start_animation data = Some N \<and> 0 < N
         \<and> current_time data f = Inr (map datetime data ! (f mod N))
         \<and> current_time data f = current_time data (f mod N)
         \<and> current_time data 0 = Inr (unique (map datetime data) ! 0)
         \<and> current_time data N = Inr (unique (map datetime data) ! 0)
         \<and> tick_time data N = Some (Inr (unique (map datetime data) ! 0))
         \<and> tick_time data (t + (N + 1)) = tick_time data t"
proof -
  from assms have start: "start_animation data = Some N"
    by (simp add: start_animation_def)
  from assms have pos: "0 < N" using current_time_nonempty(3) by simp
  have lt: "f mod N < length data"
    unfolding N_def using assms(2) by (rule current_time_nonempty(2))
  have exact: "current_time data f = Inr (map datetime data ! (f mod N))"
    using current_time_nonempty(1) [OF assms(2), of f] lt by (simp add: N_def)
  have idem: "current_time data f = current_time data (f mod N)"
    by (simp add: current_time_def N_def Let_def)
  have first: "unique (map datetime data) ! 0 = datetime (data ! 0)"
    using assms(2) by (simp add: unique_nth0 nth_map)
  have zero: "current_time data 0 = Inr (unique (map datetime data) ! 0)"
    using current_time_nonempty(1) [OF assms(2), of 0] first by simp
  have again: "current_time data N = Inr (unique (map datetime data) ! 0)"
    using current_time_nonempty(1) [OF assms(2), of N] first by (simp add: N_def)
  have "frame_of_tick N N = 0"
    by (simp add: frame_of_tick_def)
  then have tickN: "tick_time data N = Some (Inr (unique (map datetime data) ! 0))"
    using start zero by (simp add: tick_time_def)
  have "(t + (N + 1)) mod (N + 1) = t mod (N + 1)"
    by (rule mod_add_self2)
  then have "frame_of_tick N (t + (N + 1)) = frame_of_tick N t"
    by (simp only: frame_of_tick_def)
  then have shift: "tick_time data (t + (N + 1)) = tick_time data t"
    using start by (simp add: tick_time_def)
  from start pos exact idem zero again tickN shift show ?thesis by blast
qed

theorem scheduler_period_witness:
  "hourly_store \<noteq> [] \<and> start_animation hourly_store = Some 3
   \<and> current_time hourly_store 4 = Inr (Hour 1)
   \<and> current_time hourly_store 4 = current_time hourly_store 1
   \<and> current_time hourly_store 3 = Inr (Hour 0)
   \<and> tick_time hourly_store 3 = Some (Inr (Hour 0))
   \<and> tick_time hourly_store 5 = tick_time hourly_store 1"
proof -
  have ne: "hourly_store \<noteq> []" by (simp add: hourly_store_def)
  have n: "length (unique (map datetime hourly_store)) = 3"
    by (simp add: hourly_store_def sample_row_def)
  have u: "unique (map datetime hourly_store) ! 0 = Hour 0"
    by (simp add: hourly_store_def sample_row_def)
  have c: "map datetime hourly_store ! 1 = Hour 1"
    by (simp add: hourly_store_def sample_row_def)
  have m: "(4::nat) mod 3 = 1" "(1::nat) + (3 + 1) = 5" by simp_all
  from scheduler_period [OF ne, of 4 1] ne show ?thesis
    unfolding n u m c by blast
qed

text \<open>
  Claim C9 says that for every store with at least one row the slice of a frame has a row,
  so that the early return of the composer is never taken. It fails on a store whose only
  row has a blank timestamp: the animation is started with one frame, frame 0 reads the
  missing timestamp, the comparison with it is false for every row, and the slice is empty.
\<close>

theorem blank_timestamp_empty_slice:
  "blank_time_store \<noteq> []
   \<and> start_animation blank_time_store = Some 1
   \<and> current_time blank_time_store 0 = Inr NaT
   \<and> current_data blank_time_store 0 = Inr []"
  by (simp add: blank_time_store_def start_animation_def current_time_def current_data_def
      series_eq_def)

text \<open>
  Claim C9, amended. For a store with at least one row and every frame number \<open>f\<close>, the
  position \<open>f mod N\<close> lies inside the column of timestamps, so the read does not raise, and
  the slice is chosen by comparison with the timestamp read there. When that timestamp is
  not missing, the slice contains the row at that position, so it has a row and the test for
  the empty slice in the composer fails; this is so for every frame of a store without a
  missing timestamp. When that timestamp is missing, the slice is empty.
\<close>

theorem selected_slice_nonempty:
  fixes data :: "row list" and f :: nat
  defines "i \<equiv> f mod length (unique (map datetime data))"
  assumes "data \<noteq> []"
  shows "i < length data
         \<and> current_time data f = Inr (datetime (data ! i))
         \<and> current_data data f =
             Inr (filter (\<lambda>r. series_eq (datetime r) (datetime (data ! i))) data)
         \<and> (datetime (data ! i) \<noteq> NaT \<longrightarrow>
              data ! i \<in> set (filter (\<lambda>r. series_eq (datetime r) (datetime (data ! i))) data)
              \<and> filter (\<lambda>r. series_eq (datetime r) (datetime (data ! i))) data \<noteq> [])
         \<and> (NaT \<notin> set (map datetime data) \<longrightarrow>
              filter (\<lambda>r. series_eq (datetime r) (datetime (data ! i))) data \<noteq> [])
         \<and> (datetime (data ! i) = NaT \<longrightarrow>
              filter (\<lambda>r. series_eq (datetime r) (datetime (data ! i))) data = [])"
proof -
  let ?slice = "filter (\<lambda>r. series_eq (datetime r) (datetime (data ! i))) data"
  have lt: "i < length data"
    unfolding i_def using assms(2) by (rule current_time_nonempty(2))
  have ct: "current_time data f = Inr (datetime (data ! i))"
    unfolding i_def using assms(2) by (rule current_time_nonempty(1))
  have cd: "current_data data f = Inr ?slice"
    by (simp add: current_data_def ct)
  have present: "datetime (data ! i) \<noteq> NaT \<longrightarrow> data ! i \<in> set ?slice \<and> ?slice \<noteq> []"
  proof
    assume "datetime (data ! i) \<noteq> NaT"
    with lt have mem: "data ! i \<in> set ?slice" by (simp add: series_eq_def)
    then have "?slice \<noteq> []" by (metis empty_iff empty_set)
    with mem show "data ! i \<in> set ?slice \<and> ?slice \<noteq> []" by simp
  qed
  have clean: "NaT \<notin> set (map datetime data) \<longrightarrow> ?slice \<noteq> []"
  proof
    assume "NaT \<notin> set (map datetime data)"
    moreover from lt have "datetime (data ! i) \<in> set (map datetime data)" by simp
    ultimately have "datetime (data ! i) \<noteq> NaT" by metis
    with present show "?slice \<noteq> []" by simp
  qed
  have missing: "datetime (data ! i) = NaT \<longrightarrow> ?slice = []"
    by (simp add: series_eq_def)
  from lt ct cd present clean missing show ?thesis by blast
qed

theorem selected_slice_nonempty_witness:
  "sample_store \<noteq> [] \<and> NaT \<notin> set (map datetime sample_store)
   \<and> datetime (sample_store ! 1) \<noteq> NaT
   \<and> current_time sample_store 3 = Inr (Hour 0)
   \<and> current_data sample_store 3 = Inr [sample_row, sample_row\<lparr>station := ''Changping''\<rparr>]
   \<and> sample_store ! 1 \<in> set [sample_row, sample_row\<lparr>station := ''Changping''\<rparr>]
   \<and> blank_time_store \<noteq> [] \<and> datetime (blank_time_store ! 0) = NaT
   \<and> filter (\<lambda>r. series_eq (datetime r) NaT) blank_time_store = []"
proof -
  have ne: "sample_store \<noteq> []" by (simp add: sample_store_def)
  have clean: "NaT \<notin> set (map datetime sample_store)"
    by (simp add: sample_store_def sample_row_def)
  have n: "length (unique (map datetime sample_store)) = 2"
    by (simp add: sample_store_def sample_row_def)
  have d: "datetime (sample_store ! 1) = Hour 0"
    by (simp add: sample_store_def sample_row_def)
  have f: "filter (\<lambda>r. series_eq (datetime r) (Hour 0)) sample_store
           = [sample_row, sample_row\<lparr>station := ''Changping''\<rparr>]"
    by (simp add: sample_store_def sample_row_def series_eq_def)
  have m: "(3::nat) mod 2 = 1" by simp
  have present: "datetime (sample_store ! 1) \<noteq> NaT" unfolding d by simp
  from selected_slice_nonempty [OF ne, of 3] present
  have full: "current_time sample_store 3 = Inr (Hour 0)
      \<and> current_data sample_store 3 = Inr [sample_row, sample_row\<lparr>station := ''Changping''\<rparr>]
      \<and> sample_store ! 1 \<in> set [sample_row, sample_row\<lparr>station := ''Changping''\<rparr>]"
    unfolding n m f d by blast
  have bne: "blank_time_store \<noteq> []" by (simp add: blank_time_store_def)
  have bn: "length (unique (map datetime blank_time_store)) = 1"
    by (simp add: blank_time_store_def)
  have bd: "datetime (blank_time_store ! 0) = NaT"
    by (simp add: blank_time_store_def)
  have bm: "(0::nat) mod 1 = 0" by simp
  from selected_slice_nonempty [OF bne, of 0] bd
  have empty: "filter (\<lambda>r. series_eq (datetime r) NaT) blank_time_store = []"
    unfolding bn bm bd by blast
  from ne clean present full bne bd empty show ?thesis by blast
qed

text \<open>
  Claim C1, evaluated on a store in which two stations report at each of two hours. The
  distinct timestamps are the hours 0 and 1, and the ticks 0, 1 and 2 all get the hour 0:
  the position \<open>frame mod N\<close> is read in the column of all rows, not in the distinct
  timestamps, so tick 1 does not get the successor of the timestamp of tick 0, and the
  hour 1 is never chosen.
\<close>

theorem frames_repeat_first_timestamp:
  "unique (map datetime sample_store) = [Hour 0, Hour 1]
   \<and> tick_time sample_store 0 = Some (Inr (Hour 0))
   \<and> tick_time sample_store 1 = Some (Inr (Hour 0))
   \<and> tick_time sample_store 2 = Some (Inr (Hour 0))"
  by code_simp

section \<open>Properties of the frame composer\<close>

text \<open>
  Claim C8. On the empty slice the composer returns at once with the axes as \<open>ax.clear()\<close>
  and \<open>setup_plot\<close> left them and with the generator untouched: no patch and no line is
  drawn, the background is the colour \<open>#e5dbc3\<close> that \<open>setup_plot\<close> sets, and the result
  is a value, not an error. The last part states how the method reaches that code.
\<close>

theorem compose_empty_slice:
  "compose_slice [] (setup_plot (ax_clear ax), g) = Inr (setup_plot (ax_clear ax), g)
   \<and> patches (setup_plot (ax_clear ax)) = []
   \<and> plot_lines (setup_plot (ax_clear ax)) = []
   \<and> facecolor (setup_plot (ax_clear ax)) = ''#e5dbc3''
   \<and> create_abstract_visualization data frame (ax, g) =
       (case current_data data frame of
          Inl e \<Rightarrow> Inl e
        | Inr slice \<Rightarrow> compose_slice slice (setup_plot (ax_clear ax), g))"
proof -
  have early: "compose_slice [] (setup_plot (ax_clear ax), g) = Inr (setup_plot (ax_clear ax), g)"
    by (simp add: compose_slice_def)
  have none: "patches (setup_plot (ax_clear ax)) = []" "plot_lines (setup_plot (ax_clear ax)) = []"
    by (simp_all add: setup_plot_def ax_clear_def)
  have bg: "facecolor (setup_plot (ax_clear ax)) = ''#e5dbc3''"
    by (simp add: setup_plot_def)
  have whole: "create_abstract_visualization data frame (ax, g) =
       (case current_data data frame of
          Inl e \<Rightarrow> Inl e
        | Inr slice \<Rightarrow> compose_slice slice (setup_plot (ax_clear ax), g))"
    by (simp add: create_abstract_visualization_def Let_def)
  from early none bg whole show ?thesis by blast
qed

section \<open>Properties of the rotation\<close>

lemma rotation_square_sum:
  fixes a b c s :: real
  assumes "c\<^sup>2 + s\<^sup>2 = 1"
  shows "(a * c - b * s)\<^sup>2 + (a * s + b * c)\<^sup>2 = a\<^sup>2 + b\<^sup>2"
proof -
  have "(a * c - b * s)\<^sup>2 + (a * s + b * c)\<^sup>2 = (a\<^sup>2 + b\<^sup>2) * (c\<^sup>2 + s\<^sup>2)"
    by (simp add: power2_eq_square algebra_simps)
  with assms show ?thesis by simp
qed

lemma rotate_vertex_distance:
  "distance (rotate_vertex cx cy angle p) (rotate_vertex cx cy angle q) = distance p q"
proof -
  obtain px py where p: "p = (px, py)" by (cases p)
  obtain qx qy where q: "q = (qx, qy)" by (cases q)
  have x: "(px - cx) * cos angle - (py - cy) * sin angle + cx
           - ((qx - cx) * cos angle - (qy - cy) * sin angle + cx)
           = (px - qx) * cos angle - (py - qy) * sin angle"
    by (simp add: algebra_simps)
  have y: "(px - cx) * sin angle + (py - cy) * cos angle + cy
           - ((qx - cx) * sin angle + (qy - cy) * cos angle + cy)
           = (px - qx) * sin angle + (py - qy) * cos angle"
    by (simp add: algebra_simps)
  have "((px - qx) * cos angle - (py - qy) * sin angle)\<^sup>2
        + ((px - qx) * sin angle + (py - qy) * cos angle)\<^sup>2
        = (px - qx)\<^sup>2 + (py - qy)\<^sup>2"
    by (rule rotation_square_sum) simp
  then show ?thesis
    unfolding p q distance_def rotate_vertex_def by (simp only: prod.case fst_conv snd_conv x y)
qed

lemma radians_90: "cos (radians 90) = 0" "sin (radians 90) = 1"
proof -
  have h: "radians 90 = pi / 2" by (simp add: radians_def)
  show "cos (radians 90) = 0" "sin (radians 90) = 1"
    by (simp_all only: h cos_pi_half sin_pi_half)
qed

lemma rotate_vertex_quarter:
  "rotate_vertex cx cy (radians 90) (vx, vy) = (cx - (vy - cy), cy + (vx - cx))"
  by (simp add: rotate_vertex_def radians_90)

lemma rotate_vertex_four_quarters:
  "rotate_vertex cx cy (radians 90) (rotate_vertex cx cy (radians 90)
     (rotate_vertex cx cy (radians 90) (rotate_vertex cx cy (radians 90) p))) = p"
  by (cases p) (simp add: rotate_vertex_quarter)

lemma sum_rotate_vertex:
  "sum_list (map fst (map (rotate_vertex cx cy angle) vs)) =
     (sum_list (map fst vs) - real (length vs) * cx) * cos angle
     - (sum_list (map snd vs) - real (length vs) * cy) * sin angle + real (length vs) * cx"
  "sum_list (map snd (map (rotate_vertex cx cy angle) vs)) =
     (sum_list (map fst vs) - real (length vs) * cx) * sin angle
     + (sum_list (map snd vs) - real (length vs) * cy) * cos angle + real (length vs) * cy"
  by (induction vs) (auto simp: rotate_vertex_def algebra_simps)

lemma centroid_rotate_vertex:
  assumes "vs \<noteq> []"
  defines "cx \<equiv> sum_list (map fst vs) / real (length vs)"
    and "cy \<equiv> sum_list (map snd vs) / real (length vs)"
  shows "sum_list (map fst (map (rotate_vertex cx cy angle) vs)) / real (length vs) = cx"
    and "sum_list (map snd (map (rotate_vertex cx cy angle) vs)) / real (length vs) = cy"
proof -
  from assms(1) have n: "real (length vs) \<noteq> 0" by simp
  then have zx: "sum_list (map fst vs) - real (length vs) * cx = 0"
    and zy: "sum_list (map snd vs) - real (length vs) * cy = 0"
    by (simp_all add: cx_def cy_def)
  show "sum_list (map fst (map (rotate_vertex cx cy angle) vs)) / real (length vs) = cx"
    unfolding sum_rotate_vertex(1) zx zy using n by simp
  show "sum_list (map snd (map (rotate_vertex cx cy angle) vs)) / real (length vs) = cy"
    unfolding sum_rotate_vertex(2) zx zy using n by simp
qed

lemma polygon_rotated_vertices_nonempty:
  assumes "vs \<noteq> []"
  shows "polygon_rotated_vertices rotation vs =
     Inr (map (rotate_vertex (sum_list (map fst vs) / real (length vs))
                 (sum_list (map snd vs) / real (length vs)) (radians rotation)) vs)"
  using assms by (simp add: polygon_rotated_vertices_def Let_def)

lemma polygon_result:
  assumes "ws \<noteq> []"
    and "sum_list (map fst ws) / real (length ws) = cx"
    and "sum_list (map snd ws) / real (length ws) = cy"
  shows "polygon_rotated_vertices r ws = Inr (map (rotate_vertex cx cy (radians r)) ws)"
  using polygon_rotated_vertices_nonempty [OF assms(1), of r] unfolding assms(2,3) .

lemma polygon_keep:
  assumes "ws \<noteq> []"
    and "sum_list (map fst ws) / real (length ws) = cx"
    and "sum_list (map snd ws) / real (length ws) = cy"
  shows "map (rotate_vertex cx cy a) ws \<noteq> []"
    and "sum_list (map fst (map (rotate_vertex cx cy a) ws))
           / real (length (map (rotate_vertex cx cy a) ws)) = cx"
    and "sum_list (map snd (map (rotate_vertex cx cy a) ws))
           / real (length (map (rotate_vertex cx cy a) ws)) = cy"
proof -
  from assms(1) show "map (rotate_vertex cx cy a) ws \<noteq> []" by simp
  have len: "length (map (rotate_vertex cx cy a) ws) = length ws" by simp
  show "sum_list (map fst (map (rotate_vertex cx cy a) ws))
           / real (length (map (rotate_vertex cx cy a) ws)) = cx"
    unfolding len using centroid_rotate_vertex(1) [OF assms(1), of a] unfolding assms(2,3) .
  show "sum_list (map snd (map (rotate_vertex cx cy a) ws))
           / real (length (map (rotate_vertex cx cy a) ws)) = cy"
    unfolding len using centroid_rotate_vertex(2) [OF assms(1), of a] unfolding assms(2,3) .
qed

text \<open>
  Claim C6. Over the real numbers the rotation is an isometry: for every list of vertices,
  every centre and every angle in degrees, the rotated vertices have the pairwise distances
  of the vertices they come from; and four successive rotations by 90 degrees about the
  same centre give back every vertex. The triangle is drawn with its three vertices rotated
  that way about its own centre, and a polygon with at least one vertex with its vertices
  rotated about their mean, which a rotation about it leaves in place, so that four
  successive rotations of a polygon by 90 degrees give back its vertices as well. The
  floating-point error of the implementation is outside this model.
\<close>

theorem rotation_isometry:
  fixes vs :: "(real \<times> real) list" and cx cy theta :: real
  defines "rot \<equiv> rotate_vertex cx cy (radians theta)"
    and "quarter \<equiv> rotate_vertex cx cy (radians 90)"
    and "mx \<equiv> sum_list (map fst vs) / real (length vs)"
    and "my \<equiv> sum_list (map snd vs) / real (length vs)"
  shows "(\<forall>i<length vs. \<forall>j<length vs.
            distance (map rot vs ! i) (map rot vs ! j) = distance (vs ! i) (vs ! j))
       \<and> map quarter (map quarter (map quarter (map quarter vs))) = vs
       \<and> triangle_rotated_vertices tri =
           map (rotate_vertex (triangle_x tri) (triangle_y tri) (radians (triangle_rotation tri)))
             [(triangle_x tri, triangle_y tri + triangle_size tri),
              (triangle_x tri - triangle_size tri * 0.866, triangle_y tri - triangle_size tri * 0.5),
              (triangle_x tri + triangle_size tri * 0.866, triangle_y tri - triangle_size tri * 0.5)]
       \<and> (vs \<noteq> [] \<longrightarrow>
            polygon_rotated_vertices theta vs = Inr (map (rotate_vertex mx my (radians theta)) vs))
       \<and> (vs \<noteq> [] \<longrightarrow>
            (\<exists>v1 v2 v3. polygon_rotated_vertices 90 vs = Inr v1
                       \<and> polygon_rotated_vertices 90 v1 = Inr v2
                       \<and> polygon_rotated_vertices 90 v2 = Inr v3
                       \<and> polygon_rotated_vertices 90 v3 = Inr vs))"
proof -
  have iso: "\<forall>i<length vs. \<forall>j<length vs.
            distance (map rot vs ! i) (map rot vs ! j) = distance (vs ! i) (vs ! j)"
    by (simp add: rot_def rotate_vertex_distance)
  have "map quarter (map quarter (map quarter (map quarter vs)))
        = map (\<lambda>p. quarter (quarter (quarter (quarter p)))) vs"
    by simp
  also have "\<dots> = map (\<lambda>p. p) vs"
    unfolding quarter_def by (simp only: rotate_vertex_four_quarters)
  finally have four: "map quarter (map quarter (map quarter (map quarter vs))) = vs"
    by simp
  have tri: "triangle_rotated_vertices tri =
           map (rotate_vertex (triangle_x tri) (triangle_y tri) (radians (triangle_rotation tri)))
             [(triangle_x tri, triangle_y tri + triangle_size tri),
              (triangle_x tri - triangle_size tri * 0.866, triangle_y tri - triangle_size tri * 0.5),
              (triangle_x tri + triangle_size tri * 0.866, triangle_y tri - triangle_size tri * 0.5)]"
    by (simp add: triangle_rotated_vertices_def Let_def)
  have poly: "vs \<noteq> [] \<longrightarrow>
            polygon_rotated_vertices theta vs = Inr (map (rotate_vertex mx my (radians theta)) vs)"
    unfolding mx_def my_def by (simp add: polygon_rotated_vertices_nonempty)
  have poly4: "vs \<noteq> [] \<longrightarrow>
            (\<exists>v1 v2 v3. polygon_rotated_vertices 90 vs = Inr v1
                       \<and> polygon_rotated_vertices 90 v1 = Inr v2
                       \<and> polygon_rotated_vertices 90 v2 = Inr v3
                       \<and> polygon_rotated_vertices 90 v3 = Inr vs)"
  proof
    assume ne: "vs \<noteq> []"
    let ?q = "rotate_vertex mx my (radians 90)"
    have c0: "sum_list (map fst vs) / real (length vs) = mx"
      "sum_list (map snd vs) / real (length vs) = my"
      by (simp_all add: mx_def my_def)
    note k1 = polygon_keep [OF ne c0, where a = "radians 90"]
    note k2 = polygon_keep [OF k1, where a = "radians 90"]
    note k3 = polygon_keep [OF k2, where a = "radians 90"]
    have turn4: "map ?q (map ?q (map ?q (map ?q vs))) = vs"
    proof -
      have "map ?q (map ?q (map ?q (map ?q vs))) = map (\<lambda>p. ?q (?q (?q (?q p)))) vs"
        by simp
      also have "\<dots> = map (\<lambda>p. p) vs"
        by (simp only: rotate_vertex_four_quarters)
      finally show ?thesis by simp
    qed
    have s1: "polygon_rotated_vertices 90 vs = Inr (map ?q vs)"
      using ne c0 by (rule polygon_result)
    have s2: "polygon_rotated_vertices 90 (map ?q vs) = Inr (map ?q (map ?q vs))"
      using k1 by (rule polygon_result)
    have s3: "polygon_rotated_vertices 90 (map ?q (map ?q vs)) = Inr (map ?q (map ?q (map ?q vs)))"
      using k2 by (rule polygon_result)
    have s4: "polygon_rotated_vertices 90 (map ?q (map ?q (map ?q vs))) = Inr vs"
      using polygon_result [OF k3, of 90] unfolding turn4 .
    from s1 s2 s3 s4
    show "\<exists>v1 v2 v3. polygon_rotated_vertices 90 vs = Inr v1
                       \<and> polygon_rotated_vertices 90 v1 = Inr v2
                       \<and> polygon_rotated_vertices 90 v2 = Inr v3
                       \<and> polygon_rotated_vertices 90 v3 = Inr vs"
      by blast
  qed
  from iso four tri poly poly4 show ?thesis by blast
qed

theorem rotation_isometry_witness:
  "[(1, 0), (- 1, 0)] \<noteq> ([] :: (real \<times> real) list)
   \<and> (0::nat) < length [(1, 0), (- 1, 0 :: real) :: real \<times> real]
   \<and> (1::nat) < length [(1, 0), (- 1, 0 :: real) :: real \<times> real]
   \<and> distance (map (rotate_vertex 0 0 (radians 90)) [(1, 0), (- 1, 0)] ! 0)
                (map (rotate_vertex 0 0 (radians 90)) [(1, 0), (- 1, 0)] ! 1)
       = distance ([(1, 0), (- 1, 0)] ! 0) ([(1, 0), (- 1, 0)] ! 1)
   \<and> polygon_rotated_vertices 90 [(1, 0), (- 1, 0)] = Inr [(0, 1), (0, - 1)]"
proof -
  let ?vs = "[(1, 0), (- 1, 0)] :: (real \<times> real) list"
  have ne: "?vs \<noteq> []" by simp
  have l0: "(0::nat) < length ?vs" and l1: "(1::nat) < length ?vs" by simp_all
  note inst = rotation_isometry [of ?vs 0 0 90 "\<lparr>triangle_x = 0, triangle_y = 0,
      triangle_size = 1, triangle_color = ''#FF8E53'', triangle_alpha = 0.5,
      triangle_rotation = 90\<rparr>"]
  from inst l0 l1
  have d: "distance (map (rotate_vertex 0 0 (radians 90)) ?vs ! 0)
                    (map (rotate_vertex 0 0 (radians 90)) ?vs ! 1)
           = distance (?vs ! 0) (?vs ! 1)"
    by blast
  from inst ne
  have "polygon_rotated_vertices 90 ?vs =
          Inr (map (rotate_vertex (sum_list (map fst ?vs) / real (length ?vs))
                      (sum_list (map snd ?vs) / real (length ?vs)) (radians 90)) ?vs)"
    by blast
  then have p: "polygon_rotated_vertices 90 ?vs = Inr [(0, 1), (0, - 1)]"
    by (simp add: rotate_vertex_quarter)
  from ne l0 l1 d p show ?thesis by blast
qed

section \<open>Properties of the generation rules\<close>

subsection \<open>Lines\<close>

lemma create_abstract_lines_calm:
  "WSPM row \<le> 2 \<Longrightarrow> create_abstract_lines (row # rows) g = create_abstract_lines rows g"
  by (simp add: Let_def)

lemma create_abstract_lines_windy:
  assumes "2 < WSPM row"
  shows "\<exists>l g'. fst (create_abstract_lines (row # rows) g) = l # fst (create_abstract_lines rows g')
           \<and> line_width l = max 1 (min 5 (WSPM row))
           \<and> line_end_x l = line_start_x l + cos (radians (wd row)) * max 1 (min 4 (WSPM row / 2))
           \<and> line_end_y l = line_start_y l + sin (radians (wd row)) * max 1 (min 4 (WSPM row / 2))"
  using assms by (simp add: Let_def split_def) blast

lemma create_abstract_lines_rel:
  "list_all2 (\<lambda>row l.
       line_width l = max 1 (min 5 (WSPM row))
     \<and> line_end_x l = line_start_x l + cos (radians (wd row)) * max 1 (min 4 (WSPM row / 2))
     \<and> line_end_y l = line_start_y l + sin (radians (wd row)) * max 1 (min 4 (WSPM row / 2)))
     (filter (\<lambda>row. 2 < WSPM row) rows) (fst (create_abstract_lines rows g))"
proof (induction rows arbitrary: g)
  case Nil
  show ?case by simp
next
  case (Cons row rows)
  show ?case
  proof (cases "2 < WSPM row")
    case True
    from create_abstract_lines_windy [OF True, of rows g]
    obtain l g' where "fst (create_abstract_lines (row # rows) g) = l # fst (create_abstract_lines rows g')"
      and "line_width l = max 1 (min 5 (WSPM row))"
      and "line_end_x l = line_start_x l + cos (radians (wd row)) * max 1 (min 4 (WSPM row / 2))"
      and "line_end_y l = line_start_y l + sin (radians (wd row)) * max 1 (min 4 (WSPM row / 2))"
      by blast
    with True Cons.IH [of g'] show ?thesis by simp
  next
    case False
    then have "create_abstract_lines (row # rows) g = create_abstract_lines rows g"
      by (simp add: create_abstract_lines_calm)
    with False Cons.IH [of g] show ?thesis by simp
  qed
qed

text \<open>
  Claim C5. A row whose wind speed is at most 2 gives no line, and a row whose wind speed is
  above 2 gives exactly one line, whose width is the wind speed clamped to \<open>[1, 5]\<close> and
  whose end point is the start point plus the length times the cosine and the sine of the
  wind direction (in degrees, turned into radians), the length being half the wind speed
  clamped to \<open>[1, 4]\<close>. Over a whole slice the lines are, in order, those of the rows with
  wind speed above 2, one for each.
\<close>

theorem line_rule:
  "(WSPM row \<le> 2 \<longrightarrow> fst (create_abstract_lines [row] g) = [])
   \<and> (2 < WSPM row \<longrightarrow>
        (\<exists>l. fst (create_abstract_lines [row] g) = [l]
           \<and> line_width l = max 1 (min 5 (WSPM row))
           \<and> line_end_x l = line_start_x l + cos (radians (wd row)) * max 1 (min 4 (WSPM row / 2))
           \<and> line_end_y l = line_start_y l + sin (radians (wd row)) * max 1 (min 4 (WSPM row / 2))))
   \<and> length (fst (create_abstract_lines rows g)) = length (filter (\<lambda>row. 2 < WSPM row) rows)
   \<and> list_all2 (\<lambda>row l.
         line_width l = max 1 (min 5 (WSPM row))
       \<and> line_end_x l = line_start_x l + cos (radians (wd row)) * max 1 (min 4 (WSPM row / 2))
       \<and> line_end_y l = line_start_y l + sin (radians (wd row)) * max 1 (min 4 (WSPM row / 2)))
       (filter (\<lambda>row. 2 < WSPM row) rows) (fst (create_abstract_lines rows g))"
proof -
  have calm: "WSPM row \<le> 2 \<longrightarrow> fst (create_abstract_lines [row] g) = []"
    by (simp add: create_abstract_lines_calm)
  have windy: "2 < WSPM row \<longrightarrow>
        (\<exists>l. fst (create_abstract_lines [row] g) = [l]
           \<and> line_width l = max 1 (min 5 (WSPM row))
           \<and> line_end_x l = line_start_x l + cos (radians (wd row)) * max 1 (min 4 (WSPM row / 2))
           \<and> line_end_y l = line_start_y l + sin (radians (wd row)) * max 1 (min 4 (WSPM row / 2)))"
  proof
    assume "2 < WSPM row"
    from create_abstract_lines_windy [OF this, of "[]" g]
    show "\<exists>l. fst (create_abstract_lines [row] g) = [l]
           \<and> line_width l = max 1 (min 5 (WSPM row))
           \<and> line_end_x l = line_start_x l + cos (radians (wd row)) * max 1 (min 4 (WSPM row / 2))
           \<and> line_end_y l = line_start_y l + sin (radians (wd row)) * max 1 (min 4 (WSPM row / 2))"
      by auto
  qed
  note rel = create_abstract_lines_rel [of rows g]
  from rel have len: "length (fst (create_abstract_lines rows g)) = length (filter (\<lambda>row. 2 < WSPM row) rows)"
    by (simp add: list_all2_lengthD)
  from calm windy len rel show ?thesis by blast
qed

theorem line_rule_witness:
  "WSPM (sample_row\<lparr>WSPM := 1\<rparr>) \<le> 2
   \<and> fst (create_abstract_lines [sample_row\<lparr>WSPM := 1\<rparr>] (sconst 0)) = []
   \<and> 2 < WSPM sample_row
   \<and> length (fst (create_abstract_lines [sample_row] (sconst 0))) = 1
   \<and> map line_width (fst (create_abstract_lines [sample_row] (sconst 0))) = [3]"
proof -
  have calm: "WSPM (sample_row\<lparr>WSPM := 1\<rparr>) \<le> 2" by (simp add: sample_row_def)
  have windy: "2 < WSPM sample_row" by (simp add: sample_row_def)
  from line_rule [of "sample_row\<lparr>WSPM := 1\<rparr>" "sconst 0" "[]"] calm
  have none: "fst (create_abstract_lines [sample_row\<lparr>WSPM := 1\<rparr>] (sconst 0)) = []"
    by blast
  from line_rule [of sample_row "sconst 0" "[sample_row]"] windy
  obtain l where l: "fst (create_abstract_lines [sample_row] (sconst 0)) = [l]"
    and w: "line_width l = max 1 (min 5 (WSPM sample_row))"
    by blast
  from w have "line_width l = 3" by (simp add: sample_row_def)
  with l calm windy none show ?thesis by simp
qed

subsection \<open>Polygons\<close>

lemma randint_5_8:
  "5 \<le> nat (fst (randint 5 8 g))" "nat (fst (randint 5 8 g)) \<le> 8"
  by (simp_all add: randint_def randbelow_def nat_add_distrib nat_le_iff)

lemma distance_on_circle:
  assumes "0 \<le> s"
  shows "distance (cx + s * cos a, cy + s * sin a) (cx, cy) = s"
proof -
  have "(s * cos a)\<^sup>2 + (s * sin a)\<^sup>2 = s\<^sup>2 * ((cos a)\<^sup>2 + (sin a)\<^sup>2)"
    by (simp only: power_mult_distrib distrib_left)
  also have "\<dots> = s\<^sup>2" by (simp only: sin_cos_squared_add2 mult_1_right)
  finally have "(s * cos a)\<^sup>2 + (s * sin a)\<^sup>2 = s\<^sup>2" .
  then have "sqrt ((s * cos a)\<^sup>2 + (s * sin a)\<^sup>2) = s"
    using assms by simp
  then show ?thesis by (simp add: distance_def)
qed

lemma create_abstract_polygons_low:
  "O3 row \<le> 50 \<Longrightarrow> create_abstract_polygons (row # rows) g = create_abstract_polygons rows g"
  by (simp add: Let_def)

lemma create_abstract_polygons_high:
  fixes row :: row and rows :: "row list" and g :: random_state
  assumes "50 < O3 row"
  defines "g1 \<equiv> snd (randint 5 8 g)"
  defines "cx \<equiv> fst (uniform (- 7) 7 g1)"
    and "cy \<equiv> fst (uniform (- 7) 7 (snd (uniform (- 7) 7 g1)))"
  shows "\<exists>p g'. fst (create_abstract_polygons (row # rows) g)
                   = p # fst (create_abstract_polygons rows g')
           \<and> length (polygon_vertices p) = nat (fst (randint 5 8 g))
           \<and> (\<forall>v\<in>set (polygon_vertices p).
                 distance v (cx, cy) = max 0.5 (min 2.0 (O3 row / 100)))"
proof -
  let ?s = "max 0.5 (min 2.0 (O3 row / 100)) :: real"
  have s: "0 \<le> ?s" by simp
  let ?vs = "map (\<lambda>i. let angle = 2 * pi * real i / real_of_int (fst (randint 5 8 g))
                        in (cx + ?s * cos angle, cy + ?s * sin angle))
                 [0 ..< nat (fst (randint 5 8 g))]"
  have len: "length ?vs = nat (fst (randint 5 8 g))" by simp
  have circ: "\<forall>v\<in>set ?vs. distance v (cx, cy) = ?s"
    using distance_on_circle [OF s] by (auto simp: Let_def)
  have "\<exists>p g'. fst (create_abstract_polygons (row # rows) g)
                   = p # fst (create_abstract_polygons rows g')
           \<and> polygon_vertices p = ?vs"
    using assms(1) unfolding cx_def cy_def g1_def
    by (simp add: Let_def split_def) blast
  with len circ show ?thesis by metis
qed

lemma create_abstract_polygons_rel:
  "list_all2 (\<lambda>row p.
       5 \<le> length (polygon_vertices p) \<and> length (polygon_vertices p) \<le> 8
     \<and> (\<exists>c. \<forall>v\<in>set (polygon_vertices p). distance v c = max 0.5 (min 2.0 (O3 row / 100))))
     (filter (\<lambda>row. 50 < O3 row) rows) (fst (create_abstract_polygons rows g))"
proof (induction rows arbitrary: g)
  case Nil
  show ?case by simp
next
  case (Cons row rows)
  show ?case
  proof (cases "50 < O3 row")
    case True
    from create_abstract_polygons_high [OF True, of rows g]
    obtain p g' c where step: "fst (create_abstract_polygons (row # rows) g)
                        = p # fst (create_abstract_polygons rows g')"
      and len: "length (polygon_vertices p) = nat (fst (randint 5 8 g))"
      and circ: "\<forall>v\<in>set (polygon_vertices p). distance v c = max 0.5 (min 2.0 (O3 row / 100))"
      by blast
    from len randint_5_8 [of g]
    have "5 \<le> length (polygon_vertices p)" "length (polygon_vertices p) \<le> 8" by simp_all
    moreover from circ
    have "\<exists>c. \<forall>v\<in>set (polygon_vertices p). distance v c = max 0.5 (min 2.0 (O3 row / 100))"
      by blast
    ultimately show ?thesis using True step Cons.IH [of g'] by simp
  next
    case False
    then have "create_abstract_polygons (row # rows) g = create_abstract_polygons rows g"
      by (simp add: create_abstract_polygons_low)
    with False Cons.IH [of g] show ?thesis by simp
  qed
qed

lemma uniform_sconst_0: "uniform a b (sconst 0) = (a, sconst 0)"
  by (simp add: uniform_def random_py_def)

lemma randint_sconst_0: "randint 5 8 (sconst 0) = (5, sconst 0)"
  by (simp add: randint_def randbelow_def)

text \<open>
  Claim C4. A row whose ozone value is at most 50 gives no polygon. A row whose ozone value
  is above 50 gives exactly one polygon; it has between 5 and 8 vertices, and every vertex,
  as generated and before any rotation, is at the same distance from the centre drawn for
  the polygon, namely the ozone value over 100 clamped to \<open>[0.5, 2]\<close>. Over a whole slice
  the polygons are, in order, those of the rows with ozone above 50, each with 5 to 8
  vertices on a circle of the clamped radius of its row.
\<close>

theorem polygon_rule:
  fixes row :: row and rows :: "row list" and g :: random_state
  defines "cx \<equiv> fst (uniform (- 7) 7 (snd (randint 5 8 g)))"
    and "cy \<equiv> fst (uniform (- 7) 7 (snd (uniform (- 7) 7 (snd (randint 5 8 g)))))"
  shows "(O3 row \<le> 50 \<longrightarrow> fst (create_abstract_polygons [row] g) = [])
   \<and> (50 < O3 row \<longrightarrow>
        (\<exists>p. fst (create_abstract_polygons [row] g) = [p]
           \<and> 5 \<le> length (polygon_vertices p) \<and> length (polygon_vertices p) \<le> 8
           \<and> (\<forall>v\<in>set (polygon_vertices p).
                 distance v (cx, cy) = max 0.5 (min 2.0 (O3 row / 100)))))
   \<and> list_all2 (\<lambda>row p.
         5 \<le> length (polygon_vertices p) \<and> length (polygon_vertices p) \<le> 8
       \<and> (\<exists>c. \<forall>v\<in>set (polygon_vertices p).
                distance v c = max 0.5 (min 2.0 (O3 row / 100))))
       (filter (\<lambda>row. 50 < O3 row) rows) (fst (create_abstract_polygons rows g))"
proof -
  have low: "O3 row \<le> 50 \<longrightarrow> fst (create_abstract_polygons [row] g) = []"
    by (simp add: create_abstract_polygons_low)
  have high: "50 < O3 row \<longrightarrow>
        (\<exists>p. fst (create_abstract_polygons [row] g) = [p]
           \<and> 5 \<le> length (polygon_vertices p) \<and> length (polygon_vertices p) \<le> 8
           \<and> (\<forall>v\<in>set (polygon_vertices p).
                 distance v (cx, cy) = max 0.5 (min 2.0 (O3 row / 100))))"
  proof
    assume "50 < O3 row"
    from create_abstract_polygons_high [OF this, of "[]" g]
    obtain p where one: "fst (create_abstract_polygons [row] g) = [p]"
      and len: "length (polygon_vertices p) = nat (fst (randint 5 8 g))"
      and circ: "\<forall>v\<in>set (polygon_vertices p).
                 distance v (cx, cy) = max 0.5 (min 2.0 (O3 row / 100))"
      unfolding cx_def cy_def by auto
    from len randint_5_8 [of g]
    have "5 \<le> length (polygon_vertices p)" "length (polygon_vertices p) \<le> 8" by simp_all
    with one circ
    show "\<exists>p. fst (create_abstract_polygons [row] g) = [p]
           \<and> 5 \<le> length (polygon_vertices p) \<and> length (polygon_vertices p) \<le> 8
           \<and> (\<forall>v\<in>set (polygon_vertices p).
                 distance v (cx, cy) = max 0.5 (min 2.0 (O3 row / 100)))"
      by blast
  qed
  from low high create_abstract_polygons_rel [of rows g] show ?thesis by blast
qed

theorem polygon_rule_witness:
  "O3 (sample_row\<lparr>O3 := 10\<rparr>) \<le> 50
   \<and> fst (create_abstract_polygons [sample_row\<lparr>O3 := 10\<rparr>] (sconst 0)) = []
   \<and> 50 < O3 sample_row
   \<and> map (\<lambda>p. length (polygon_vertices p))
          (fst (create_abstract_polygons [sample_row] (sconst 0))) = [5]
   \<and> hd (polygon_vertices (hd (fst (create_abstract_polygons [sample_row] (sconst 0)))))
        \<in> set (polygon_vertices (hd (fst (create_abstract_polygons [sample_row] (sconst 0)))))
   \<and> distance (hd (polygon_vertices (hd (fst (create_abstract_polygons [sample_row] (sconst 0))))))
        (- 7, - 7) = 0.8"
proof -
  have low: "O3 (sample_row\<lparr>O3 := 10\<rparr>) \<le> 50" by (simp add: sample_row_def)
  have high: "50 < O3 sample_row" by (simp add: sample_row_def)
  from polygon_rule [of "sample_row\<lparr>O3 := 10\<rparr>" "sconst 0" "[]"] low
  have none: "fst (create_abstract_polygons [sample_row\<lparr>O3 := 10\<rparr>] (sconst 0)) = []"
    by blast
  from polygon_rule [of sample_row "sconst 0" "[sample_row]"] high
  obtain p where one: "fst (create_abstract_polygons [sample_row] (sconst 0)) = [p]"
    and circ: "\<forall>v\<in>set (polygon_vertices p).
        distance v (fst (uniform (- 7) 7 (snd (randint 5 8 (sconst 0)))),
                    fst (uniform (- 7) 7 (snd (uniform (- 7) 7 (snd (randint 5 8 (sconst 0)))))))
          = max 0.5 (min 2.0 (O3 sample_row / 100))"
    by blast
  have vs: "length (polygon_vertices p) = 5"
    using one by (auto simp add: Let_def split_def randint_sconst_0 uniform_sconst_0 sample_row_def)
  then have mem: "hd (polygon_vertices p) \<in> set (polygon_vertices p)"
    by (cases "polygon_vertices p") simp_all
  with circ have "distance (hd (polygon_vertices p)) (- 7, - 7) = max 0.5 (min 2.0 (O3 sample_row / 100))"
    by (simp add: randint_sconst_0 uniform_sconst_0)
  then have d: "distance (hd (polygon_vertices p)) (- 7, - 7) = 0.8"
    by (simp add: sample_row_def)
  from low high none vs mem d show ?thesis unfolding one by simp
qed

subsection \<open>Triangles\<close>

lemma create_abstract_triangles_sizes:
  "map triangle_size (fst (create_abstract_triangles rows g)) =
     map (\<lambda>row. max 0.3 (min 2.0 (SO2 row / 30)) * ((TEMP row + 20) / 40)) rows"
  by (induction rows arbitrary: g) (simp_all add: Let_def split_def)

lemma clamped_times_factor:
  fixes so2 temp :: real
  defines "sz \<equiv> max 0.3 (min 2.0 (so2 / 30)) * ((temp + 20) / 40)"
  shows "(0 \<le> sz) = (- 20 \<le> temp)"
    and "temp \<le> 20 \<Longrightarrow> - 20 \<le> temp \<Longrightarrow> sz \<le> 2.0"
proof -
  let ?s = "max 0.3 (min 2.0 (so2 / 30)) :: real"
  have pos: "0 < ?s" by simp
  have le: "?s \<le> 2" by simp
  have "(0 \<le> ?s * ((temp + 20) / 40)) = (0 \<le> (temp + 20) / 40)"
    using pos by (simp only: zero_le_mult_iff) auto
  also have "\<dots> = (- 20 \<le> temp)" by auto
  finally show "(0 \<le> sz) = (- 20 \<le> temp)" unfolding sz_def .
  assume "temp \<le> 20" "- 20 \<le> temp"
  then have f: "0 \<le> (temp + 20) / 40" "(temp + 20) / 40 \<le> 1" by simp_all
  have "?s * ((temp + 20) / 40) \<le> 2 * 1"
    using le f pos by (intro mult_mono) simp_all
  then show "sz \<le> 2.0" by (simp add: sz_def)
qed

text \<open>
  Claim C3 says that the size of every triangle lies within the bounds of the clamp, and in
  particular is not negative, whatever the sulphur dioxide value and the temperature. It
  fails: at a sulphur dioxide value of 60 and a temperature of 40 the size is 3, above the
  upper bound 2, and at a sulphur dioxide value of 30 and a temperature of -40 the size is
  -1/2, below zero. The clamp is applied before the multiplication by the temperature
  factor, which is not clamped.
\<close>

theorem triangle_size_counterexample:
  "triangle_size (hd (fst (create_abstract_triangles
       [sample_row\<lparr>SO2 := 60, TEMP := 40\<rparr>] (sconst 0)))) = 3
   \<and> \<not> triangle_size (hd (fst (create_abstract_triangles
       [sample_row\<lparr>SO2 := 60, TEMP := 40\<rparr>] (sconst 0)))) \<le> 2.0
   \<and> triangle_size (hd (fst (create_abstract_triangles
       [sample_row\<lparr>SO2 := 30, TEMP := - 40\<rparr>] (sconst 0)))) = - 1 / 2
   \<and> \<not> 0 \<le> triangle_size (hd (fst (create_abstract_triangles
       [sample_row\<lparr>SO2 := 30, TEMP := - 40\<rparr>] (sconst 0))))"
  by (simp add: Let_def split_def sample_row_def)

text \<open>
  Claim C3, amended. The size of the triangle of a row is the sulphur dioxide value over 30
  clamped to \<open>[0.3, 2]\<close>, times the temperature factor \<open>(TEMP + 20) / 40\<close>. It is not
  negative exactly when the temperature is at least -20, and when every temperature of the
  slice lies in \<open>[-20, 20]\<close>, where the factor is in \<open>[0, 1]\<close>, every size lies in
  \<open>[0, 2]\<close>.
\<close>

theorem triangle_size_product:
  "map triangle_size (fst (create_abstract_triangles rows g)) =
     map (\<lambda>row. max 0.3 (min 2.0 (SO2 row / 30)) * ((TEMP row + 20) / 40)) rows
   \<and> ((\<forall>t\<in>set (fst (create_abstract_triangles [row] g)). 0 \<le> triangle_size t)
        = (- 20 \<le> TEMP row))
   \<and> ((\<forall>row\<in>set rows. - 20 \<le> TEMP row \<and> TEMP row \<le> 20) \<longrightarrow>
        (\<forall>t\<in>set (fst (create_abstract_triangles rows g)).
           0 \<le> triangle_size t \<and> triangle_size t \<le> 2.0))"
proof -
  let ?f = "\<lambda>row. max 0.3 (min 2.0 (SO2 row / 30)) * ((TEMP row + 20) / 40) :: real"
  note sizes = create_abstract_triangles_sizes
  have one: "(\<forall>t\<in>set (fst (create_abstract_triangles [row] g)). 0 \<le> triangle_size t)
        = (- 20 \<le> TEMP row)"
  proof -
    have "(\<forall>t\<in>set (fst (create_abstract_triangles [row] g)). 0 \<le> triangle_size t)
          = (\<forall>x\<in>set (map triangle_size (fst (create_abstract_triangles [row] g))). 0 \<le> x)"
      by simp
    also have "\<dots> = (0 \<le> ?f row)" unfolding sizes by simp
    also have "\<dots> = (- 20 \<le> TEMP row)" by (rule clamped_times_factor(1))
    finally show ?thesis .
  qed
  have many: "(\<forall>row\<in>set rows. - 20 \<le> TEMP row \<and> TEMP row \<le> 20) \<longrightarrow>
        (\<forall>t\<in>set (fst (create_abstract_triangles rows g)).
           0 \<le> triangle_size t \<and> triangle_size t \<le> 2.0)"
  proof (intro impI ballI)
    fix t
    assume temps: "\<forall>row\<in>set rows. - 20 \<le> TEMP row \<and> TEMP row \<le> 20"
      and "t \<in> set (fst (create_abstract_triangles rows g))"
    then have "triangle_size t \<in> set (map triangle_size (fst (create_abstract_triangles rows g)))"
      by simp
    then have "triangle_size t \<in> set (map ?f rows)" unfolding sizes .
    then obtain r where r: "r \<in> set rows" and eq: "triangle_size t = ?f r" by auto
    from temps r have lo: "- 20 \<le> TEMP r" and hi: "TEMP r \<le> 20" by simp_all
    from lo have "0 \<le> ?f r" by (simp only: clamped_times_factor(1))
    moreover from hi lo have "?f r \<le> 2.0" by (rule clamped_times_factor(2))
    ultimately show "0 \<le> triangle_size t \<and> triangle_size t \<le> 2.0" unfolding eq by simp
  qed
  from sizes [of rows g] one many show ?thesis by blast
qed

theorem triangle_size_product_witness:
  "- 20 \<le> TEMP sample_row \<and> TEMP sample_row \<le> 20
   \<and> map triangle_size (fst (create_abstract_triangles [sample_row] (sconst 0))) = [7 / 12]
   \<and> 0 \<le> triangle_size (hd (fst (create_abstract_triangles [sample_row] (sconst 0))))
   \<and> triangle_size (hd (fst (create_abstract_triangles [sample_row] (sconst 0)))) \<le> 2.0"
proof -
  have lo: "- 20 \<le> TEMP sample_row" and hi: "TEMP sample_row \<le> 20"
    by (simp_all add: sample_row_def)
  then have temps: "\<forall>row\<in>set [sample_row]. - 20 \<le> TEMP row \<and> TEMP row \<le> 20"
    by simp
  note inst = triangle_size_product [of "[sample_row]" "sconst 0" sample_row]
  from inst have "map triangle_size (fst (create_abstract_triangles [sample_row] (sconst 0)))
      = map (\<lambda>row. max 0.3 (min 2.0 (SO2 row / 30)) * ((TEMP row + 20) / 40)) [sample_row]"
    by blast
  then have sizes: "map triangle_size (fst (create_abstract_triangles [sample_row] (sconst 0)))
      = [7 / 12]"
    by (simp add: sample_row_def)
  then have mem: "hd (fst (create_abstract_triangles [sample_row] (sconst 0)))
      \<in> set (fst (create_abstract_triangles [sample_row] (sconst 0)))"
    by (cases "fst (create_abstract_triangles [sample_row] (sconst 0))") simp_all
  from inst temps
  have "\<forall>t\<in>set (fst (create_abstract_triangles [sample_row] (sconst 0))).
          0 \<le> triangle_size t \<and> triangle_size t \<le> 2.0"
    by blast
  with mem
  have bounds: "0 \<le> triangle_size (hd (fst (create_abstract_triangles [sample_row] (sconst 0))))
      \<and> triangle_size (hd (fst (create_abstract_triangles [sample_row] (sconst 0)))) \<le> 2.0"
    by blast
  from lo hi sizes bounds show ?thesis by blast
qed

end
